theory Spec2Isabelle
  imports Complex_Main "HOL-Library.Word"
begin

section \<open>Values shared by the image utilities\<close>

text \<open>
  Errors the modelled Python can raise: \<open>CvError\<close> is \<open>cv2.error\<close> (an assertion of
  the OpenCV library failed), \<open>AttributeError\<close> is an attribute read on \<open>None\<close>.
\<close>

datatype py_error = CvError | AttributeError

text \<open>
  The entries of a score map are IEEE floating point values. Only their order matters
  here, so a finite value is the real number it denotes; the three special values are
  kept apart, with the comparisons IEEE gives them (every comparison with NaN is false).
\<close>

datatype np_float = Finite real | PosInf | NegInf | NaN

fun np_ge :: "np_float \<Rightarrow> np_float \<Rightarrow> bool" where
  "np_ge NaN b = False"
| "np_ge a NaN = False"
| "np_ge PosInf b = True"
| "np_ge a NegInf = True"
| "np_ge NegInf b = False"
| "np_ge a PosInf = False"
| "np_ge (Finite a) (Finite b) = (b \<le> a)"

fun np_gt :: "np_float \<Rightarrow> np_float \<Rightarrow> bool" where
  "np_gt NaN b = False"
| "np_gt a NaN = False"
| "np_gt PosInf PosInf = False"
| "np_gt PosInf b = True"
| "np_gt NegInf b = False"
| "np_gt a NegInf = True"
| "np_gt a PosInf = False"
| "np_gt (Finite a) (Finite b) = (b < a)"

definition np_le :: "np_float \<Rightarrow> np_float \<Rightarrow> bool" where
  "np_le a b = np_ge b a"

fun isfinite :: "np_float \<Rightarrow> bool" where
  "isfinite (Finite a) = True"
| "isfinite a = False"

text \<open>
  \<open>np.around\<close> rounds to the nearest integer, halves to the even neighbour. The
  rounding of a float to the nearest representable one rounds the same way.
\<close>

definition np_around :: "real \<Rightarrow> int" where
  "np_around v =
     (let f = \<lfloor>v\<rfloor> in
      if v - of_int f < 1/2 then f
      else if 1/2 < v - of_int f then f + 1
      else if even f then f else f + 1)"

text \<open>
  Single precision. A float32 has a significand of 24 bits and a binary exponent from
  -126 to 127. \<open>float32_exponent x\<close>, for \<open>x \<ge> 0\<close>, is the exponent of the binade
  of \<open>x\<close>: the largest \<open>e\<close> in that range with \<open>2 ^ e \<le> x\<close>, and -126 below the normal
  range; \<open>binade\<close> searches it from 127 downwards. \<open>float32_value x\<close> is the multiple of
  \<open>2 ^ (e - 23)\<close> nearest to \<open>x\<close>, halves to the even multiple, and \<open>float32_round\<close>
  turns a value past the largest float32 into infinity. \<open>float32\<close> is the conversion of a
  Python float (a double) to \<open>np.float32\<close>.
\<close>

fun binade :: "nat \<Rightarrow> int \<Rightarrow> real \<Rightarrow> int" where
  "binade 0 e x = e"
| "binade (Suc n) e x = (if 2 powi e \<le> x then e else binade n (e - 1) x)"

definition float32_exponent :: "real \<Rightarrow> int" where
  "float32_exponent x = binade 253 127 x"

definition float32_value :: "real \<Rightarrow> real" where
  "float32_value x =
     of_int (np_around (x / 2 powi (float32_exponent x - 23))) * 2 powi (float32_exponent x - 23)"

definition float32_round :: "real \<Rightarrow> np_float" where
  "float32_round x = (if 2 powi 128 \<le> float32_value x then PosInf else Finite (float32_value x))"

fun np_negative :: "np_float \<Rightarrow> np_float" where
  "np_negative (Finite a) = Finite (- a)"
| "np_negative PosInf = NegInf"
| "np_negative NegInf = PosInf"
| "np_negative NaN = NaN"

fun float32 :: "np_float \<Rightarrow> np_float" where
  "float32 (Finite x) = (if 0 \<le> x then float32_round x else np_negative (float32_round (- x)))"
| "float32 a = a"

text \<open>
  An image is a \<open>numpy\<close> array of rows of pixels, a pixel being its channel vector.
  \<open>shape0\<close> is \<open>img.shape[0]\<close> (rows, the height) and \<open>shape1\<close> is \<open>img.shape[1]\<close>
  (columns, the width); the width of an image without rows reads as 0.
\<close>

type_synonym 'p image = "'p list list"

definition shape0 :: "'p image \<Rightarrow> nat" where
  "shape0 img = length img"

definition shape1 :: "'p image \<Rightarrow> nat" where
  "shape1 img = (case img of [] \<Rightarrow> 0 | r # rs \<Rightarrow> length r)"

text \<open>
  Modelled from the spec: the class \<open>MatchResult\<close> of \<open>basic.img\<close> is not part of the
  sources at hand. The spec gives it the fields confidence, x, y (top left corner in source
  coordinates), w and h (the template's width and height), in this order, which is the
  order of the constructor call in \<open>match_template\<close>. The fields x, y, w, h are named
  \<open>mr_x\<close>, \<open>mr_y\<close>, \<open>mr_w\<close>, \<open>mr_h\<close> here. A \<open>MatchResultList\<close> is the list of its
  entries in insertion order.
\<close>

datatype MatchResult =
  MatchResult (confidence: np_float) (mr_x: int) (mr_y: int) (mr_w: int) (mr_h: int)

type_synonym MatchResultList = "MatchResult list"


section \<open>match_template\<close>

text \<open>
  \<open>np.where\<close> on a two-dimensional boolean array: the (row, column) index pairs of
  the true entries, in row-major order.
\<close>

definition row_hits :: "nat \<Rightarrow> bool list \<Rightarrow> (nat \<times> nat) list" where
  "row_hits r row = map (\<lambda>c. (r, c)) (filter (\<lambda>c. row ! c) [0..<length row])"

definition np_where :: "bool list list \<Rightarrow> (nat \<times> nat) list" where
  "np_where m = concat (map (\<lambda>r. row_hits r (m ! r)) [0..<length m])"

text \<open>
  The element-wise test of lines 170 to 173:
  \<open>logical_and(result >= threshold, isfinite(result) if ignore_inf else ones_like(result))\<close>.
  The score map is an array of \<open>float32\<close> and the threshold a Python float: \<open>numpy\<close>
  compares the two in single precision, so the threshold is rounded to \<open>float32\<close> before
  the scores are compared with it.
\<close>

definition keeps :: "np_float \<Rightarrow> bool \<Rightarrow> np_float \<Rightarrow> bool" where
  "keeps threshold ignore_inf s =
     (np_ge s (float32 threshold) \<and> (if ignore_inf then isfinite s else True))"

text \<open>
  Lines 169 to 180, from the score map on: one \<open>MatchResult\<close> for each retained
  location \<open>pt = (column, row)\<close>, with \<open>result[pt[1], pt[0]]\<close> as its confidence.
\<close>

definition collect_matches ::
  "np_float list list \<Rightarrow> np_float \<Rightarrow> bool \<Rightarrow> int \<Rightarrow> int \<Rightarrow> MatchResultList" where
  "collect_matches result threshold ignore_inf tx ty =
     map (\<lambda>(r, c). MatchResult (result ! r ! c) (int c) (int r) tx ty)
       (np_where (map (map (keeps threshold ignore_inf)) result))"

text \<open>
  \<open>match_template\<close>. The call \<open>cv2.matchTemplate(source, template, TM_CCOEFF_NORMED, mask)\<close>
  leaves the repository: it is the parameter \<open>matchTemplate\<close>, which either raises
  or returns the score map (the argument \<open>mask\<close> is written \<open>msk\<close>). Line 165 reads \<open>ty, tx = template.shape[1], template.shape[0]\<close>.
\<close>

definition match_template ::
  "('p image \<Rightarrow> 'p image \<Rightarrow> 'p image option \<Rightarrow> py_error + np_float list list) \<Rightarrow>
   'p image \<Rightarrow> 'p image \<Rightarrow> np_float \<Rightarrow> 'p image option \<Rightarrow> bool \<Rightarrow> py_error + MatchResultList" where
  "match_template matchTemplate source template threshold msk ignore_inf =
     (let ty = int (shape1 template); tx = int (shape0 template) in
      case matchTemplate source template msk of
        Inl e \<Rightarrow> Inl e
      | Inr result \<Rightarrow> Inr (collect_matches result threshold ignore_inf tx ty))"

text \<open>
  OpenCV's \<open>matchTemplate\<close> is a library function outside the repository. Of its behaviour
  the shape contract is modelled, as its implementation checks it, and the scores themselves
  are the parameter \<open>ncc\<close> (image, template, mask, row, column):
  \<^item> an empty array (no rows or no columns) as the image or as the template is rejected;
  \<^item> with a mask, the mask has the template's size and the template fits into the image
    in both dimensions, otherwise an assertion fails;
  \<^item> without a mask, an image smaller than the template in some dimension is swapped with
    the template, which asserts that it is not larger in the other dimension;
  \<^item> the score map has one entry for each placement of the smaller array in the larger.
\<close>

definition score_map :: "(nat \<Rightarrow> nat \<Rightarrow> np_float) \<Rightarrow> nat \<Rightarrow> nat \<Rightarrow> np_float list list" where
  "score_map f nrows ncols = map (\<lambda>r. map (\<lambda>c. f r c) [0..<ncols]) [0..<nrows]"

definition empty_array :: "'p image \<Rightarrow> bool" where
  "empty_array img = (shape0 img = 0 \<or> shape1 img = 0)"

definition cv2_matchTemplate ::
  "('p image \<Rightarrow> 'p image \<Rightarrow> 'p image option \<Rightarrow> nat \<Rightarrow> nat \<Rightarrow> np_float) \<Rightarrow>
   'p image \<Rightarrow> 'p image \<Rightarrow> 'p image option \<Rightarrow> py_error + np_float list list" where
  "cv2_matchTemplate ncc img templ msk =
     (if empty_array img \<or> empty_array templ then Inl CvError
      else
        case msk of
          Some m \<Rightarrow>
            if shape0 m = shape0 templ \<and> shape1 m = shape1 templ
               \<and> shape0 templ \<le> shape0 img \<and> shape1 templ \<le> shape1 img
            then Inr (score_map (ncc img templ msk)
                   (shape0 img - shape0 templ + 1) (shape1 img - shape1 templ + 1))
            else Inl CvError
        | None \<Rightarrow>
            if shape0 img < shape0 templ \<or> shape1 img < shape1 templ
            then
              if shape0 img \<le> shape0 templ \<and> shape1 img \<le> shape1 templ
              then Inr (score_map (ncc templ img None)
                     (shape0 templ - shape0 img + 1) (shape1 templ - shape1 img + 1))
              else Inl CvError
            else Inr (score_map (ncc img templ None)
                   (shape0 img - shape0 templ + 1) (shape1 img - shape1 templ + 1)))"

text \<open>Matchers for concrete runs: one that returns a given score map, one scoring function
  that gives every placement the same score.\<close>

definition given_scores ::
  "np_float list list \<Rightarrow> 'p image \<Rightarrow> 'p image \<Rightarrow> 'p image option \<Rightarrow> py_error + np_float list list" where
  "given_scores result img templ msk = Inr result"

definition flat_ncc ::
  "np_float \<Rightarrow> 'p image \<Rightarrow> 'p image \<Rightarrow> 'p image option \<Rightarrow> nat \<Rightarrow> nat \<Rightarrow> np_float" where
  "flat_ncc s img templ msk r c = s"

section \<open>find_max_circle\<close>

text \<open>
  A circle as \<open>cv2.HoughCircles\<close> reports it: centre x, centre y and radius, floating
  point values read as the real numbers they denote.
\<close>

type_synonym circle = "real \<times> real \<times> real"

text \<open>
  OpenCV's \<open>HoughCircles\<close> is a library function outside the repository. The circles the
  transform finds in the image are the parameter \<open>found\<close>; of the call's contract the radius
  bounds are modelled: a circle whose radius is outside \<open>minRadius .. maxRadius\<close> is not
  reported, and the Python binding returns \<open>None\<close> when no circle is reported. Which of two
  circles closer than \<open>minDist\<close> survives is not modelled.
\<close>

definition HoughCircles :: "circle list \<Rightarrow> real \<Rightarrow> real \<Rightarrow> circle list option" where
  "HoughCircles found minRadius maxRadius =
     (let circles = filter (\<lambda>(cx, cy, cr). minRadius \<le> cr \<and> cr \<le> maxRadius) found
      in if circles = [] then None else Some circles)"

text \<open>
  \<open>np.uint16(np.around(circles))\<close>: \<open>np.around\<close> rounds to the nearest integer and
  \<open>np.uint16\<close> keeps the low 16 bits.
\<close>

definition np_uint16 :: "real \<Rightarrow> 16 word" where
  "np_uint16 v = word_of_int (np_around v)"

type_synonym circle16 = "16 word \<times> 16 word \<times> 16 word"

definition uint16_circle :: "circle \<Rightarrow> circle16" where
  "uint16_circle c = (case c of (cx, cy, cr) \<Rightarrow> (np_uint16 cx, np_uint16 cy, np_uint16 cr))"

definition radius :: "circle16 \<Rightarrow> 16 word" where
  "radius c = snd (snd c)"

text \<open>The loop of lines 203 to 207, on the running \<open>(tx, ty, tr)\<close>.\<close>

fun keep_largest :: "circle16 list \<Rightarrow> circle16 \<Rightarrow> circle16" where
  "keep_largest [] t = t"
| "keep_largest (circle # circles) t =
     (if radius circle > radius t then keep_largest circles circle else keep_largest circles t)"

text \<open>
  \<open>find_max_circle\<close>, from the circles found in the grey image on (\<open>show_result\<close> only
  draws and displays).
\<close>

definition find_max_circle :: "circle list \<Rightarrow> circle16" where
  "find_max_circle found =
     (case HoughCircles found 160 200 of
        None \<Rightarrow> (0, 0, 0)
      | Some circles \<Rightarrow> keep_largest (map uint16_circle circles) (0, 0, 0))"


section \<open>concat_vertically\<close>

text \<open>Python's slices \<open>xs[k:]\<close> and \<open>xs[0:k]\<close>; a negative bound counts from the end.\<close>

definition py_slice_from :: "int \<Rightarrow> 'a list \<Rightarrow> 'a list" where
  "py_slice_from k xs = (if 0 \<le> k then drop (nat k) xs else drop (nat (int (length xs) + k)) xs)"

definition py_slice_to :: "int \<Rightarrow> 'a list \<Rightarrow> 'a list" where
  "py_slice_to k xs = (if 0 \<le> k then take (nat k) xs else take (nat (int (length xs) + k)) xs)"

text \<open>The loop of lines 231 to 234: the first result of the highest confidence.\<close>

fun highest :: "MatchResult option \<Rightarrow> MatchResultList \<Rightarrow> MatchResult option" where
  "highest r [] = r"
| "highest r (i # rest) =
     highest (case r of
                None \<Rightarrow> Some i
              | Some r' \<Rightarrow> if np_gt (confidence i) (confidence r') then Some i else Some r') rest"

text \<open>
  OpenCV's \<open>vconcat\<close> puts the second array under the first; it asserts that both have
  the same number of columns.
\<close>

definition vconcat :: "'p image \<Rightarrow> 'p image \<Rightarrow> py_error + 'p image" where
  "vconcat a b = (if a = [] \<or> b = [] \<or> shape1 a = shape1 b then Inr (a @ b) else Inl CvError)"

text \<open>
  \<open>concat_vertically\<close>. With no result at all \<open>r\<close> stays \<open>None\<close> and \<open>r.y\<close> raises.
\<close>

definition concat_vertically ::
  "('p image \<Rightarrow> 'p image \<Rightarrow> 'p image option \<Rightarrow> py_error + np_float list list) \<Rightarrow>
   'p image \<Rightarrow> 'p image \<Rightarrow> int \<Rightarrow> py_error + 'p image" where
  "concat_vertically matchTemplate img next_img decision_height =
     (let next_part = py_slice_to decision_height next_img in
      case match_template matchTemplate img next_part (Finite (1/2)) None False of
        Inl e \<Rightarrow> Inl e
      | Inr result \<Rightarrow>
          (case highest None result of
             None \<Rightarrow> Inl AttributeError
           | Some r \<Rightarrow>
               let h = int (shape0 img);
                   overlap_h = h - mr_y r;
                   extra_part = py_slice_from (overlap_h + 1) next_img
               in vconcat img extra_part))"

text \<open>
  For concrete runs: a capture whose rows are numbered, row \<open>i\<close> holding the single pixel
  \<open>i\<close>, and a scoring function that gives 1 where the window equals the template and 0
  elsewhere.
\<close>

definition numbered_rows :: "nat \<Rightarrow> nat \<Rightarrow> nat image" where
  "numbered_rows a b = map (\<lambda>i. [i]) [a..<b]"

definition exact_ncc :: "'p image \<Rightarrow> 'p image \<Rightarrow> 'p image option \<Rightarrow> nat \<Rightarrow> nat \<Rightarrow> np_float" where
  "exact_ncc img templ msk r c =
     (if map (\<lambda>row. take (shape1 templ) (drop c row)) (take (shape0 templ) (drop r img)) = templ
      then Finite 1 else Finite 0)"


section \<open>The world graph constants\<close>

text \<open>
  \<open>Planet\<close> and \<open>Region\<close> of \<open>sr/constants/map.py\<close>. The fields \<open>id\<close> and \<open>cn\<close> are
  named \<open>planet_id\<close>, \<open>planet_cn\<close>, \<open>region_id\<close>, \<open>region_cn\<close>; a Chinese name is the list
  of its code points. \<open>planet\<close> may hold \<open>None\<close>.
\<close>

datatype Planet = Planet (planet_id: string) (planet_cn: "nat list")

datatype Region =
  Region (region_id: string) (region_cn: "nat list") (planet: "Planet option") (level: int)

text \<open>The decimal digits of a number, as \<open>%d\<close> prints them.\<close>

fun digits :: "nat \<Rightarrow> string" where
  "digits n =
     (if n < 10 then [''0123456789'' ! n]
      else digits (n div 10) @ [''0123456789'' ! (n mod 10)])"

declare digits.simps [simp del]

definition get_pr_id :: "Region \<Rightarrow> py_error + string" where
  "get_pr_id r =
     (case planet r of
        None \<Rightarrow> Inl AttributeError
      | Some p \<Rightarrow> Inr (planet_id p @ ''-'' @ region_id r))"

definition get_rl_id :: "Region \<Rightarrow> string" where
  "get_rl_id r =
     (if level r = 0 then region_id r
      else if level r > 0 then region_id r @ ''-l'' @ digits (nat (level r))
      else region_id r @ ''-b'' @ digits (nat \<bar>level r\<bar>))"

definition get_prl_id :: "Region \<Rightarrow> py_error + string" where
  "get_prl_id r =
     (if level r = 0 then
        (case planet r of
           None \<Rightarrow> Inl AttributeError
         | Some p \<Rightarrow> Inr (planet_id p @ ''-'' @ region_id r))
      else if level r > 0 then
        (case planet r of
           None \<Rightarrow> Inl AttributeError
         | Some p \<Rightarrow> Inr (planet_id p @ ''-'' @ region_id r @ ''-l'' @ digits (nat (level r))))
      else
        (case planet r of
           None \<Rightarrow> Inl AttributeError
         | Some p \<Rightarrow> Inr (planet_id p @ ''-'' @ region_id r @ ''-b'' @ digits (nat \<bar>level r\<bar>))))"

definition P01_KZJ :: Planet where
  "P01_KZJ = Planet ''kjzht'' [31354, 38388, 31449]"

definition P02_YYL :: Planet where
  "P02_YYL = Planet ''yll6'' [38597, 21033, 27931]"

definition P03_XZLF :: Planet where
  "P03_XZLF = Planet ''zxlf'' [32599, 28014]"

definition R0_GJCX :: Region where
  "R0_GJCX = Region ''gjcx'' [35266, 26223, 36710, 21410] None 0"

definition P01_R01_ZKCD :: Region where
  "P01_R01_ZKCD = Region ''zkcd'' [20027, 25511, 33329, 27573] (Some P01_KZJ) 0"

definition P01_R02_JZCD :: Region where
  "P01_R02_JZCD = Region ''jzcd'' [22522, 24231, 33329, 27573] (Some P01_KZJ) 0"

definition P01_R03_SRCD_B1 :: Region where
  "P01_R03_SRCD_B1 = Region ''srcd'' [25910, 23481, 33329, 27573] (Some P01_KZJ) (-1)"

definition P01_R03_SRCD_L1 :: Region where
  "P01_R03_SRCD_L1 = Region ''srcd'' [25910, 23481, 33329, 27573] (Some P01_KZJ) 1"

definition P01_R03_SRCD_L2 :: Region where
  "P01_R03_SRCD_L2 = Region ''srcd'' [25910, 23481, 33329, 27573] (Some P01_KZJ) 2"

definition P01_R04_ZYCD_L1 :: Region where
  "P01_R04_ZYCD_L1 = Region ''zycd'' [25903, 25588, 33329, 27573] (Some P01_KZJ) 1"

definition P01_R04_ZYCD_L2 :: Region where
  "P01_R04_ZYCD_L2 = Region ''zycd'' [25903, 25588, 33329, 27573] (Some P01_KZJ) 2"

definition P02_R01_L1 :: Region where
  "P02_R01_L1 = Region ''xzq'' [34892, 25919, 21306] (Some P02_YYL) 1"

definition P02_R01_B1 :: Region where
  "P02_R01_B1 = Region ''xzq'' [34892, 25919, 21306] (Some P02_YYL) (-1)"

definition P02_R02 :: Region where
  "P02_R02 = Region ''cjxy'' [22478, 37066, 38634, 21407] (Some P02_YYL) 0"

definition P02_R03 :: Region where
  "P02_R03 = Region ''bytl'' [36793, 32536, 36890, 36335] (Some P02_YYL) 0"

definition P02_R04 :: Region where
  "P02_R04 = Region ''twjq'' [38081, 21355, 31105, 21306] (Some P02_YYL) 0"

definition P02_R05 :: Region where
  "P02_R05 = Region ''cxhl'' [27531, 21709, 22238, 24266] (Some P02_YYL) 0"

definition P02_R06 :: Region where
  "P02_R06 = Region ''ydl'' [27704, 20908, 23725] (Some P02_YYL) 0"

definition P02_R07 :: Region where
  "P02_R07 = Region ''zwzz'' [36896, 29289, 20043, 26609] (Some P02_YYL) 0"

definition P02_R08_L2 :: Region where
  "P02_R08_L2 = Region ''jwqsyc'' [26087, 27494, 22120, 35797, 39564, 22330] (Some P02_YYL) 2"

definition P02_R09 :: Region where
  "P02_R09 = Region ''pyz'' [30928, 23721, 38215] (Some P02_YYL) 0"

definition P02_R10 :: Region where
  "P02_R10 = Region ''dkq'' [22823, 30719, 21306] (Some P02_YYL) 0"

definition P02_R11_L1 :: Region where
  "P02_R11_L1 = Region ''mdz'' [38086, 38025, 38215] (Some P02_YYL) 1"

definition P02_R11_L2 :: Region where
  "P02_R11_L2 = Region ''mdz'' [38086, 38025, 38215] (Some P02_YYL) 2"

definition PLANET_LIST :: "Planet list" where
  "PLANET_LIST = [P01_KZJ, P02_YYL, P03_XZLF]"

text \<open>Every \<open>Region\<close> constant of the module, in the order of lines 75 to 97.\<close>

definition region_constants :: "Region list" where
  "region_constants = [R0_GJCX, P01_R01_ZKCD, P01_R02_JZCD, P01_R03_SRCD_B1, P01_R03_SRCD_L1, P01_R03_SRCD_L2, P01_R04_ZYCD_L1, P01_R04_ZYCD_L2, P02_R01_L1, P02_R01_B1, P02_R02, P02_R03, P02_R04, P02_R05, P02_R06, P02_R07, P02_R08_L2, P02_R09, P02_R10, P02_R11_L1, P02_R11_L2]"

text \<open>The identity key of a region: planet id, region id and level.\<close>

definition identity_key :: "Region \<Rightarrow> py_error + string \<times> string \<times> int" where
  "identity_key r =
     (case planet r of
        None \<Rightarrow> Inl AttributeError
      | Some p \<Rightarrow> Inr (planet_id p, region_id r, level r))"

section \<open>ScaleLargeMap\<close>

text \<open>
  Modelled from the spec: the round outcome codes of the class \<open>Operation\<close>
  (\<open>sr.operation\<close>, not part of the sources at hand) are SUCCESS, RETRY, WAIT and FAIL.
\<close>

datatype round_result = SUCCESS | RETRY | WAIT | FAIL

text \<open>
  Modelled from the spec: \<open>MatchResultList.max\<close> is the entry of maximum confidence
  (\<open>None\<close> for an empty list), and the centre of a \<open>MatchResult\<close> is
  \<open>(x + w/2, y + h/2)\<close>.
\<close>

definition mrl_max :: "MatchResultList \<Rightarrow> MatchResult option" where
  "mrl_max result = highest None result"

definition center :: "MatchResult \<Rightarrow> real \<times> real" where
  "center m = (of_int (mr_x m) + of_int (mr_w m) / 2, of_int (mr_y m) + of_int (mr_h m) / 2)"

text \<open>
  What the operation reaches through \<open>self.ctx\<close> and its base class is outside the sources
  at hand and is a parameter, acting on the state \<open>'w\<close> of the game and its controller:
  \<open>screenshot\<close> captures the screen, \<open>crop_image\<close> cuts a rectangle out of it,
  \<open>im_match_template\<close> is \<open>ctx.im.match_template(source, template_id, template_type='origin')\<close>,
  \<open>click\<close> is \<open>ctx.controller.click\<close> and \<open>super_on_resume\<close> is \<open>Operation.on_resume\<close>,
  which acts on the fields \<open>'b\<close> of the base class.
\<close>

record ('w, 'img, 'b) Context =
  screenshot :: "'w \<Rightarrow> 'img \<times> 'w"
  crop_image :: "'img \<Rightarrow> int \<times> int \<times> int \<times> int \<Rightarrow> 'img"
  im_match_template :: "'img \<Rightarrow> string \<Rightarrow> MatchResultList"
  click :: "real \<times> real \<Rightarrow> 'w \<Rightarrow> bool \<times> 'w"
  super_on_resume :: "'b \<Rightarrow> 'w \<Rightarrow> 'b \<times> 'w"

text \<open>The fields of a \<open>ScaleLargeMap\<close>: those of the base class, then its own.\<close>

record 'b ScaleLargeMap =
  base :: 'b
  scale :: int
  click_times :: int
  pos :: "MatchResult option"

text \<open>\<open>rect = Rect(600, 960, 1040, 1020)\<close>, whose \<open>left_top\<close> is its first two numbers.\<close>

definition rect :: "int \<times> int \<times> int \<times> int" where
  "rect = (600, 960, 1040, 1020)"

definition left_top :: "int \<times> int \<times> int \<times> int \<Rightarrow> int \<times> int" where
  "left_top r = (case r of (x1, y1, x2, y2) \<Rightarrow> (x1, y1))"

definition ScaleLargeMap_init :: "'b \<Rightarrow> int \<Rightarrow> 'b ScaleLargeMap" where
  "ScaleLargeMap_init b s = \<lparr>base = b, scale = s, click_times = 0, pos = None\<rparr>"

definition get_click_pos ::
  "('w, 'img, 'b) Context \<Rightarrow> 'b ScaleLargeMap \<Rightarrow> 'w \<Rightarrow> MatchResult option \<times> 'w" where
  "get_click_pos ctx self w =
     (case screenshot ctx w of (screen, w') \<Rightarrow>
        let template_id = (if scale self > 0 then ''plus'' else ''minus'');
            (x1, y1) = left_top rect;
            source = crop_image ctx screen rect;
            result = im_match_template ctx source template_id
        in (case mrl_max result of
              None \<Rightarrow> (None, w')
            | Some m \<Rightarrow>
                (Some (MatchResult (confidence m) (mr_x m + x1) (mr_y m + y1) (mr_w m) (mr_h m)), w')))"

definition execute_one_round ::
  "('w, 'img, 'b) Context \<Rightarrow> 'b ScaleLargeMap \<Rightarrow> 'w \<Rightarrow> round_result \<times> 'b ScaleLargeMap \<times> 'w" where
  "execute_one_round ctx self w =
     (case (if pos self = None
            then (case get_click_pos ctx self w of (p, w') \<Rightarrow> (self\<lparr>pos := p\<rparr>, w'))
            else (self, w)) of
        (self1, w1) \<Rightarrow>
          (case pos self1 of
             Some p \<Rightarrow>
               (case click ctx (center p) w1 of (clicked, w2) \<Rightarrow>
                  let self2 = self1\<lparr>click_times := click_times self1 + 1\<rparr>
                  in if click_times self2 = \<bar>scale self2\<bar>
                     then (SUCCESS, self2, w2)
                     else (WAIT, self2, w2))
           | None \<Rightarrow> (RETRY, self1, w1)))"

definition on_resume ::
  "('w, 'img, 'b) Context \<Rightarrow> 'b ScaleLargeMap \<Rightarrow> 'w \<Rightarrow> 'b ScaleLargeMap \<times> 'w" where
  "on_resume ctx self w =
     (case get_click_pos ctx self w of (p, w1) \<Rightarrow>
        let self1 = self\<lparr>pos := p\<rparr> in
        (case super_on_resume ctx (base self1) w1 of (b, w2) \<Rightarrow> (self1\<lparr>base := b\<rparr>, w2)))"

text \<open>The results of \<open>n\<close> rounds run one after the other, with the final state.\<close>

fun run_rounds ::
  "('w, 'img, 'b) Context \<Rightarrow> nat \<Rightarrow> 'b ScaleLargeMap \<Rightarrow> 'w \<Rightarrow>
   round_result list \<times> 'b ScaleLargeMap \<times> 'w" where
  "run_rounds ctx 0 self w = ([], self, w)"
| "run_rounds ctx (Suc n) self w =
     (case execute_one_round ctx self w of (r, self1, w1) \<Rightarrow>
        (case run_rounds ctx n self1 w1 of (rs, self2, w2) \<Rightarrow> (r # rs, self2, w2)))"

text \<open>
  For concrete runs: the game state is the number of the frame on screen, a screenshot is
  that number, every capture moves to the next frame, and the matcher finds the button at
  a place that depends on the frame.
\<close>

definition frame_context :: "(nat, nat, unit) Context" where
  "frame_context =
     \<lparr>screenshot = (\<lambda>w. (w, Suc w)),
      crop_image = (\<lambda>img r. img),
      im_match_template = (\<lambda>img template_id. [MatchResult (Finite (9/10)) (int img) 7 30 30]),
      click = (\<lambda>p w. (True, w)),
      super_on_resume = (\<lambda>b w. (b, w))\<rparr>"


section \<open>Properties of the rounding to single precision\<close>

lemma np_around_floor: "\<lfloor>v\<rfloor> \<le> np_around v \<and> np_around v \<le> \<lfloor>v\<rfloor> + 1"
  by (simp add: np_around_def Let_def)

lemma np_around_of_int [simp]: "np_around (of_int k) = k"
  by (simp add: np_around_def)

lemma np_around_mono:
  assumes "a \<le> b"
  shows "np_around a \<le> np_around b"
proof (cases "\<lfloor>a\<rfloor> = \<lfloor>b\<rfloor>")
  case True
  from assms have "a - of_int \<lfloor>a\<rfloor> \<le> b - of_int \<lfloor>a\<rfloor>" by simp
  then show ?thesis unfolding np_around_def Let_def True [symmetric] by auto
next
  case False
  from assms have "\<lfloor>a\<rfloor> \<le> \<lfloor>b\<rfloor>" by (rule floor_mono)
  with False have "\<lfloor>a\<rfloor> + 1 \<le> \<lfloor>b\<rfloor>" by simp
  then show ?thesis using np_around_floor [of a] np_around_floor [of b] by linarith
qed


lemma binade_range: "e - int n \<le> binade n e x \<and> binade n e x \<le> e"
proof (induction n arbitrary: e)
  case 0
  then show ?case by simp
next
  case (Suc n)
  from Suc [of "e - 1"] show ?case by auto
qed

lemma binade_lower: "e - int n < binade n e x \<Longrightarrow> 2 powi (binade n e x) \<le> x"
proof (induction n arbitrary: e)
  case 0
  then show ?case by simp
next
  case (Suc n)
  then show ?case by (auto split: if_splits)
qed

lemma binade_upper: "binade n e x < e \<Longrightarrow> x < 2 powi (binade n e x + 1)"
proof (induction n arbitrary: e)
  case 0
  then show ?case by simp
next
  case (Suc n)
  show ?case
  proof (cases "2 powi e \<le> x")
    case True
    with Suc.prems show ?thesis by simp
  next
    case False
    show ?thesis
    proof (cases "binade n (e - 1) x < e - 1")
      case True
      from Suc.IH [OF True] False show ?thesis by simp
    next
      case False': False
      with binade_range [of "e - 1" n x] have "binade n (e - 1) x = e - 1" by simp
      with False show ?thesis by simp
    qed
  qed
qed

lemma binade_mono: "x \<le> y \<Longrightarrow> binade n e x \<le> binade n e y"
proof (induction n arbitrary: e)
  case 0
  then show ?case by simp
next
  case (Suc n)
  show ?case
  proof (cases "2 powi e \<le> y")
    case True
    then show ?thesis using binade_range [of "e - 1" n x] by auto
  next
    case False
    with Suc.prems have "\<not> 2 powi e \<le> x" by simp
    with False Suc.IH [OF Suc.prems, of "e - 1"] show ?thesis by simp
  qed
qed


lemma float32_exponent_range: "- 126 \<le> float32_exponent x \<and> float32_exponent x \<le> 127"
  using binade_range [of 127 253 x] by (simp add: float32_exponent_def)

lemma float32_exponent_lower: "- 126 < float32_exponent x \<Longrightarrow> 2 powi (float32_exponent x) \<le> x"
  using binade_lower [of 127 253 x] by (simp add: float32_exponent_def)

lemma float32_exponent_upper: "float32_exponent x < 127 \<Longrightarrow> x < 2 powi (float32_exponent x + 1)"
  using binade_upper [of 253 127 x] by (simp add: float32_exponent_def)

lemma float32_exponent_mono: "x \<le> y \<Longrightarrow> float32_exponent x \<le> float32_exponent y"
  by (simp add: float32_exponent_def binade_mono)

lemma float32_exponent_eq:
  assumes lo: "2 powi e \<le> x" and hi: "x < 2 powi (e + 1)" and "- 126 \<le> e" and "e \<le> 127"
  shows "float32_exponent x = e"
proof (rule ccontr)
  let ?k = "float32_exponent x"
  assume "?k \<noteq> e"
  then consider "?k < e" | "e < ?k" by linarith
  then show False
  proof cases
    case 1
    with assms(4) have "?k < 127" by simp
    from float32_exponent_upper [OF this] have "x < 2 powi (?k + 1)" .
    moreover from 1 have "(2::real) powi (?k + 1) \<le> 2 powi e"
      by (intro power_int_increasing) simp_all
    ultimately show False using lo by linarith
  next
    case 2
    with assms(3) have "- 126 < ?k" by simp
    from float32_exponent_lower [OF this] have "2 powi ?k \<le> x" .
    moreover from 2 have "(2::real) powi (e + 1) \<le> 2 powi ?k"
      by (intro power_int_increasing) simp_all
    ultimately show False using hi by linarith
  qed
qed

lemma float32_round_value:
  "float32_round x = (if 2 powi 128 \<le> float32_value x then PosInf else Finite (float32_value x))"
  by (simp add: float32_round_def)

lemma powi_split: "(2::real) powi e = 2 powi k * 2 powi (e - k)"
  by (simp add: power_int_add [symmetric])

lemma float32_value_le_next:
  assumes "float32_exponent x < 127"
  shows "float32_value x \<le> 2 powi (float32_exponent x + 1)"
proof -
  let ?e = "float32_exponent x"
  let ?u = "(2::real) powi (?e - 23)"
  have u: "0 < ?u" by simp
  have top: "(2::real) powi (?e + 1) = 2 ^ 24 * ?u"
    using powi_split [of "?e + 1" 24] by simp
  from float32_exponent_upper [OF assms] have "x < 2 ^ 24 * ?u" by (simp only: top)
  then have "x / ?u \<le> of_int (2 ^ 24)" using u by (simp add: pos_divide_le_eq)
  then have "np_around (x / ?u) \<le> np_around (of_int (2 ^ 24))" by (rule np_around_mono)
  then have "np_around (x / ?u) \<le> 2 ^ 24" by (simp only: np_around_of_int)
  then have "(of_int (np_around (x / ?u)) :: real) \<le> 2 ^ 24"
    by (metis of_int_le_iff of_int_numeral of_int_power)
  then have "of_int (np_around (x / ?u)) * ?u \<le> 2 ^ 24 * ?u"
    using u by (simp only: mult_le_cancel_right_pos)
  then show ?thesis by (simp only: float32_value_def top)
qed

lemma float32_value_ge_binade:
  assumes "- 126 < float32_exponent y"
  shows "2 powi (float32_exponent y) \<le> float32_value y"
proof -
  let ?e = "float32_exponent y"
  let ?u = "(2::real) powi (?e - 23)"
  have u: "0 < ?u" by simp
  have bot: "(2::real) powi ?e = 2 ^ 23 * ?u"
    using powi_split [of "?e" 23] by simp
  from float32_exponent_lower [OF assms] have "2 ^ 23 * ?u \<le> y" by (simp only: bot)
  then have "of_int (2 ^ 23) \<le> y / ?u" using u by (simp add: pos_le_divide_eq)
  then have "np_around (of_int (2 ^ 23)) \<le> np_around (y / ?u)" by (rule np_around_mono)
  then have "2 ^ 23 \<le> np_around (y / ?u)" by (simp only: np_around_of_int)
  then have "(2 ^ 23 :: real) \<le> of_int (np_around (y / ?u))"
    by (metis of_int_le_iff of_int_numeral of_int_power)
  then have "2 ^ 23 * ?u \<le> of_int (np_around (y / ?u)) * ?u"
    using u by (simp only: mult_le_cancel_right_pos)
  then show ?thesis by (simp only: float32_value_def bot)
qed

lemma float32_value_mono:
  assumes "x \<le> y"
  shows "float32_value x \<le> float32_value y"
proof (cases "float32_exponent x = float32_exponent y")
  case True
  let ?u = "(2::real) powi (float32_exponent y - 23)"
  have u: "0 < ?u" by simp
  from assms have "x / ?u \<le> y / ?u" using u by (simp add: divide_right_mono)
  then have "np_around (x / ?u) \<le> np_around (y / ?u)" by (rule np_around_mono)
  then have "(of_int (np_around (x / ?u)) :: real) \<le> of_int (np_around (y / ?u))" by simp
  then have "of_int (np_around (x / ?u)) * ?u \<le> of_int (np_around (y / ?u)) * ?u"
    using u by (simp only: mult_le_cancel_right_pos)
  then show ?thesis by (simp add: float32_value_def True)
next
  case False
  with float32_exponent_mono [OF assms] have lt: "float32_exponent x < float32_exponent y" by simp
  with float32_exponent_range [of y] have "float32_exponent x < 127" by simp
  then have a: "float32_value x \<le> 2 powi (float32_exponent x + 1)" by (rule float32_value_le_next)
  from lt float32_exponent_range [of x] have "- 126 < float32_exponent y" by simp
  then have b: "2 powi (float32_exponent y) \<le> float32_value y" by (rule float32_value_ge_binade)
  from lt have "(2::real) powi (float32_exponent x + 1) \<le> 2 powi (float32_exponent y)"
    by (intro power_int_increasing) simp_all
  with a b show ?thesis by linarith
qed

lemma float32_round_mono:
  assumes "x \<le> y"
  shows "np_le (float32_round x) (float32_round y)"
  using float32_value_mono [OF assms] by (auto simp: float32_round_value np_le_def)

lemma float32_value_nonneg: "0 \<le> x \<Longrightarrow> 0 \<le> float32_value x"
proof -
  assume "0 \<le> x"
  then have "0 \<le> x / 2 powi (float32_exponent x - 23)" by simp
  then have "np_around 0 \<le> np_around (x / 2 powi (float32_exponent x - 23))" by (rule np_around_mono)
  then have "0 \<le> np_around (x / 2 powi (float32_exponent x - 23))" by (simp add: np_around_def)
  then show ?thesis by (simp add: float32_value_def)
qed

lemma float32_mono:
  assumes "np_le a b"
  shows "np_le (float32 a) (float32 b)"
proof (cases a)
  case (Finite x)
  note a = this
  show ?thesis
  proof (cases b)
    case (Finite y)
    with a assms have xy: "x \<le> y" by (simp add: np_le_def)
    consider "0 \<le> x" | "x < 0" "0 \<le> y" | "y < 0" using xy by linarith
    then show ?thesis
    proof cases
      case 1
      with xy a Finite show ?thesis using float32_round_mono [OF xy] by simp
    next
      case 2
      have "0 \<le> float32_value (- x)" "0 \<le> float32_value y"
        using 2 by (simp_all add: float32_value_nonneg)
      then show ?thesis using 2 a Finite
        by (auto simp: float32_round_value np_le_def)
    next
      case 3
      with xy have "- y \<le> - x" "x < 0" by simp_all
      from float32_value_mono [OF this(1)] 3 this(2) a Finite show ?thesis
        by (auto simp: float32_round_value np_le_def)
    qed
  next
    case PosInf
    with a show ?thesis by (auto simp: np_le_def float32_round_value)
  next
    case NegInf
    with a assms show ?thesis by (simp add: np_le_def)
  next
    case NaN
    with a assms show ?thesis by (simp add: np_le_def)
  qed
next
  case PosInf
  with assms show ?thesis by (cases b) (auto simp: np_le_def)
next
  case NegInf
  with assms show ?thesis by (cases b) (auto simp: np_le_def float32_round_value)
next
  case NaN
  with assms show ?thesis by (cases b) (auto simp: np_le_def)
qed



text \<open>The thresholds of the runs below, rounded: 0.5 is a float32, 0.8 and 0.9 are not.\<close>

lemma float32_half: "float32 (Finite (1/2)) = Finite (1/2)"
proof -
  have e: "float32_exponent (1/2) = - 1" by (rule float32_exponent_eq) simp_all
  have "np_around (8388608::real) = 8388608" using np_around_of_int [of 8388608] by simp
  then have "float32_value (1/2) = 1/2" by (simp add: float32_value_def e)
  then show ?thesis by (simp add: float32_round_def)
qed

lemma float32_four_fifths: "float32 (Finite (4/5)) = Finite (13421773/16777216)"
proof -
  have e: "float32_exponent (4/5) = - 1" by (rule float32_exponent_eq) simp_all
  have "np_around (67108864/5 :: real) = 13421773" by (simp add: np_around_def)
  then have "float32_value (4/5) = 13421773/16777216" by (simp add: float32_value_def e)
  then show ?thesis by (simp add: float32_round_def)
qed


lemma float32_round_half: "float32_round (1/2) = Finite (1/2)"
  using float32_half by simp

lemma float32_round_four_fifths: "float32_round (4/5) = Finite (13421773/16777216)"
  using float32_four_fifths by simp



section \<open>Properties of match_template\<close>

lemma np_ge_trans: "np_ge s b \<Longrightarrow> np_ge b a \<Longrightarrow> np_ge s a"
  by (cases s; cases b; cases a) auto

lemma in_row_hits: "(r', c) \<in> set (row_hits r row) \<longleftrightarrow> r' = r \<and> c < length row \<and> row ! c"
  by (auto simp: row_hits_def)

lemma in_np_where:
  "(r, c) \<in> set (np_where m) \<longleftrightarrow> r < length m \<and> c < length (m ! r) \<and> m ! r ! c"
  by (auto simp: np_where_def in_row_hits)




lemma filter_length_mono:
  "(\<And>x. x \<in> set xs \<Longrightarrow> P x \<Longrightarrow> Q x) \<Longrightarrow> length (filter P xs) \<le> length (filter Q xs)"
  by (induction xs) auto

lemma length_np_where:
  "length (np_where m) =
     (\<Sum>r\<leftarrow>[0..<length m]. length (filter (\<lambda>c. m ! r ! c) [0..<length (m ! r)]))"
  by (simp add: np_where_def length_concat row_hits_def comp_def)

lemma length_np_where_mono:
  assumes "length a = length b"
      and "\<And>r. r < length a \<Longrightarrow> length (a ! r) = length (b ! r)"
      and "\<And>r c. r < length a \<Longrightarrow> c < length (a ! r) \<Longrightarrow> a ! r ! c \<Longrightarrow> b ! r ! c"
    shows "length (np_where a) \<le> length (np_where b)"
  unfolding length_np_where using assms
  by (auto intro!: sum_list_mono filter_length_mono)

lemma collect_matches_mono:
  assumes "np_le t1 t2"
  shows "length (collect_matches result t2 ii tx ty) \<le> length (collect_matches result t1 ii tx' ty')"
  unfolding collect_matches_def length_map
  using assms
proof (intro length_np_where_mono)
  from float32_mono [OF assms] have le: "np_ge (float32 t2) (float32 t1)" by (simp add: np_le_def)
  fix r c
  assume "r < length (map (map (keeps t2 ii)) result)"
    and "c < length (map (map (keeps t2 ii)) result ! r)"
    and "map (map (keeps t2 ii)) result ! r ! c"
  then show "map (map (keeps t1 ii)) result ! r ! c"
    using np_ge_trans [OF _ le] by (auto simp: keeps_def)
qed simp_all

lemma in_collect_matches:
  "m \<in> set (collect_matches result t ii tx ty) \<longleftrightarrow>
     (\<exists>r c. r < length result \<and> c < length (result ! r) \<and> keeps t ii (result ! r ! c)
        \<and> m = MatchResult (result ! r ! c) (int c) (int r) tx ty)"
proof
  assume "m \<in> set (collect_matches result t ii tx ty)"
  then obtain r c where "(r, c) \<in> set (np_where (map (map (keeps t ii)) result))"
    and "m = MatchResult (result ! r ! c) (int c) (int r) tx ty"
    by (auto simp: collect_matches_def)
  then show "\<exists>r c. r < length result \<and> c < length (result ! r) \<and> keeps t ii (result ! r ! c)
        \<and> m = MatchResult (result ! r ! c) (int c) (int r) tx ty"
    by (auto simp: in_np_where)
next
  assume "\<exists>r c. r < length result \<and> c < length (result ! r) \<and> keeps t ii (result ! r ! c)
        \<and> m = MatchResult (result ! r ! c) (int c) (int r) tx ty"
  then obtain r c where rc: "r < length result" "c < length (result ! r)" "keeps t ii (result ! r ! c)"
    and m: "m = MatchResult (result ! r ! c) (int c) (int r) tx ty" by blast
  from rc have "(r, c) \<in> set (np_where (map (map (keeps t ii)) result))"
    by (simp add: in_np_where)
  then have "(\<lambda>(r, c). MatchResult (result ! r ! c) (int c) (int r) tx ty) (r, c)
      \<in> set (collect_matches result t ii tx ty)"
    unfolding collect_matches_def set_map by (rule imageI)
  with m show "m \<in> set (collect_matches result t ii tx ty)" by simp
qed


lemma match_template_Inr:
  "match_template mt source template threshold msk ii = Inr ms \<longleftrightarrow>
     (\<exists>result. mt source template msk = Inr result \<and>
        ms = collect_matches result threshold ii (int (shape0 template)) (int (shape1 template)))"
  by (auto simp: match_template_def split: sum.splits)

lemma match_template_Inl:
  "match_template mt source template threshold msk ii = Inl e \<longleftrightarrow> mt source template msk = Inl e"
  by (auto simp: match_template_def split: sum.splits)

lemma match_template_w_h:
  assumes "match_template matchTemplate source template threshold msk ignore_inf = Inr ms"
      and "m \<in> set ms"
    shows "mr_w m = int (shape0 template) \<and> mr_h m = int (shape1 template)"
  using assms by (auto simp: match_template_Inr in_collect_matches)

lemmas run_defs = match_template_def given_scores_def collect_matches_def np_where_def
  row_hits_def keeps_def shape0_def shape1_def




text \<open>
  C2, as the code has it. The claim is that \<open>w\<close> is the template's width (its columns) and
  \<open>h\<close> its height (its rows). For a template of one row and two columns the result carries
  \<open>w = 1\<close> and \<open>h = 2\<close>: \<open>tx\<close> is read from \<open>shape[0]\<close>, the rows, and is passed as \<open>w\<close>.
\<close>

theorem match_template_swaps_w_h:
  "match_template (cv2_matchTemplate (flat_ncc (Finite 1))) [[0::nat, 0]] [[0, 0]] (Finite (1/2)) None False
     = Inr [MatchResult (Finite 1) 0 0 1 2]
   \<and> shape1 [[0::nat, 0]] = 2 \<and> shape0 [[0::nat, 0]] = 1"
  by (simp add: run_defs cv2_matchTemplate_def empty_array_def flat_ncc_def score_map_def
      float32_round_half)

text \<open>
  C3, as stated, fails: a template of two rows and one column against a source of one row
  and two columns is larger than the source in one dimension, and \<open>match_template\<close> does
  not return the empty list.
\<close>

theorem match_template_oversize_counterexample:
  "(shape0 [[0::nat, 0]] < shape0 [[0::nat], [0]] \<or> shape1 [[0::nat, 0]] < shape1 [[0::nat], [0]])
   \<and> match_template (cv2_matchTemplate (flat_ncc (Finite 0))) [[0::nat, 0]] [[0], [0]] (Finite (1/2)) None False
       \<noteq> Inr []"
  by (simp add: match_template_def cv2_matchTemplate_def empty_array_def shape0_def shape1_def)

text \<open>
  C3, amended. \<open>match_template\<close> has no size check of its own: what a template larger than
  the source in at least one dimension gives is what the library does with it.
  \<^item> With a mask, or when the template is smaller than the source in the other dimension,
    the library rejects the shapes and its error reaches the caller: no list is returned.
  \<^item> With no mask and a template at least as large as the (non-empty) source in both
    dimensions, nothing is raised: the library swaps the two arrays, and the list has one
    result for each placement of the source inside the template whose score clears the
    threshold. It need not be empty.
\<close>

theorem match_template_oversize:
  assumes "shape0 source < shape0 template \<or> shape1 source < shape1 template"
  shows "(msk \<noteq> None \<or> shape0 template < shape0 source \<or> shape1 template < shape1 source
            \<longrightarrow> match_template (cv2_matchTemplate ncc) source template threshold msk ignore_inf
                  = Inl CvError)
       \<and> (msk = None \<and> shape0 source \<le> shape0 template \<and> shape1 source \<le> shape1 template
            \<and> 0 < shape0 source \<and> 0 < shape1 source
            \<longrightarrow> match_template (cv2_matchTemplate ncc) source template threshold msk ignore_inf
                  = Inr (collect_matches
                          (score_map (ncc template source None)
                             (shape0 template - shape0 source + 1)
                             (shape1 template - shape1 source + 1))
                          threshold ignore_inf (int (shape0 template)) (int (shape1 template))))"
proof (intro conjI impI)
  assume "msk \<noteq> None \<or> shape0 template < shape0 source \<or> shape1 template < shape1 source"
  with assms show "match_template (cv2_matchTemplate ncc) source template threshold msk ignore_inf
      = Inl CvError"
    by (auto simp: match_template_def cv2_matchTemplate_def split: option.splits)
next
  assume a: "msk = None \<and> shape0 source \<le> shape0 template \<and> shape1 source \<le> shape1 template
            \<and> 0 < shape0 source \<and> 0 < shape1 source"
  with assms have "\<not> empty_array source" "\<not> empty_array template"
    by (auto simp: empty_array_def)
  with a assms show "match_template (cv2_matchTemplate ncc) source template threshold msk ignore_inf
      = Inr (collect_matches
               (score_map (ncc template source None)
                  (shape0 template - shape0 source + 1)
                  (shape1 template - shape1 source + 1))
               threshold ignore_inf (int (shape0 template)) (int (shape1 template)))"
    by (auto simp: match_template_def cv2_matchTemplate_def)
qed

text \<open>
  C3, amended, at two inputs: the input of the counterexample, which raises, and a template
  of two rows and two columns against a source of one pixel, which gives four results.
\<close>

theorem match_template_oversize_witness:
  "shape0 [[0::nat, 0]] < shape0 [[0::nat], [0]] \<and> shape1 [[0::nat], [0]] < shape1 [[0::nat, 0]]
   \<and> match_template (cv2_matchTemplate (flat_ncc (Finite 0))) [[0::nat, 0]] [[0], [0]] (Finite (1/2)) None False
       = Inl CvError
   \<and> shape0 [[0::nat]] < shape0 [[0::nat, 0], [0, 0]] \<and> shape1 [[0::nat]] \<le> shape1 [[0::nat, 0], [0, 0]]
   \<and> match_template (cv2_matchTemplate (flat_ncc (Finite 1))) [[0::nat]] [[0, 0], [0, 0]] (Finite (1/2)) None False
       = Inr [MatchResult (Finite 1) 0 0 2 2, MatchResult (Finite 1) 1 0 2 2,
              MatchResult (Finite 1) 0 1 2 2, MatchResult (Finite 1) 1 1 2 2]"
proof -
  have a: "shape0 [[0::nat, 0]] < shape0 [[0::nat], [0]]"
    by (simp add: shape0_def)
  have b: "shape1 [[0::nat], [0]] < shape1 [[0::nat, 0]]"
    by (simp add: shape1_def)
  have c: "shape0 [[0::nat]] < shape0 [[0::nat, 0], [0, 0]]"
    by (simp add: shape0_def)
  have d: "shape1 [[0::nat]] \<le> shape1 [[0::nat, 0], [0, 0]]"
    by (simp add: shape1_def)
  have e: "0 < shape0 [[0::nat]] \<and> 0 < shape1 [[0::nat]]"
    by (simp add: shape0_def shape1_def)
  have raises: "match_template (cv2_matchTemplate (flat_ncc (Finite 0))) [[0::nat, 0]] [[0], [0]]
      (Finite (1/2)) None False = Inl CvError"
    using match_template_oversize [OF disjI1 [OF a], of None "flat_ncc (Finite 0)" "Finite (1/2)" False] b
    by simp
  have "match_template (cv2_matchTemplate (flat_ncc (Finite 1))) [[0::nat]] [[0, 0], [0, 0]]
      (Finite (1/2)) None False
    = Inr (collect_matches
             (score_map (flat_ncc (Finite 1) [[0::nat, 0], [0, 0]] [[0]] None)
                (shape0 [[0::nat, 0], [0, 0]] - shape0 [[0::nat]] + 1)
                (shape1 [[0::nat, 0], [0, 0]] - shape1 [[0::nat]] + 1))
             (Finite (1/2)) False (int (shape0 [[0::nat, 0], [0, 0]])) (int (shape1 [[0::nat, 0], [0, 0]])))"
    using match_template_oversize [OF disjI1 [OF c], of None "flat_ncc (Finite 1)" "Finite (1/2)" False] c d e
    by simp
  moreover have "collect_matches
             (score_map (flat_ncc (Finite 1) [[0::nat, 0], [0, 0]] [[0]] None)
                (shape0 [[0::nat, 0], [0, 0]] - shape0 [[0::nat]] + 1)
                (shape1 [[0::nat, 0], [0, 0]] - shape1 [[0::nat]] + 1))
             (Finite (1/2)) False (int (shape0 [[0::nat, 0], [0, 0]])) (int (shape1 [[0::nat, 0], [0, 0]]))
    = [MatchResult (Finite 1) 0 0 2 2, MatchResult (Finite 1) 1 0 2 2,
       MatchResult (Finite 1) 0 1 2 2, MatchResult (Finite 1) 1 1 2 2]"
    by (simp add: run_defs flat_ncc_def score_map_def float32_round_half)
  ultimately have swaps: "match_template (cv2_matchTemplate (flat_ncc (Finite 1))) [[0::nat]] [[0, 0], [0, 0]]
      (Finite (1/2)) None False
    = Inr [MatchResult (Finite 1) 0 0 2 2, MatchResult (Finite 1) 1 0 2 2,
           MatchResult (Finite 1) 0 1 2 2, MatchResult (Finite 1) 1 1 2 2]"
    by simp
  from a b c d raises swaps show ?thesis by simp
qed

text \<open>
  C4. For a fixed source, template and mask and thresholds \<open>t1 \<le> t2\<close>, the run at \<open>t2\<close>
  returns at most as many results as the run at \<open>t1\<close>; when the matcher raises, both runs
  raise the same error.
\<close>

theorem match_template_count_antitone:
  assumes "np_le t1 t2"
  shows "(\<exists>ms1 ms2. match_template matchTemplate source template t1 msk ignore_inf = Inr ms1
            \<and> match_template matchTemplate source template t2 msk ignore_inf = Inr ms2
            \<and> length ms2 \<le> length ms1)
       \<or> (\<exists>e. match_template matchTemplate source template t1 msk ignore_inf = Inl e
            \<and> match_template matchTemplate source template t2 msk ignore_inf = Inl e)"
proof (cases "matchTemplate source template msk")
  case (Inl e)
  then show ?thesis by (simp add: match_template_def)
next
  case (Inr result)
  then show ?thesis
    using collect_matches_mono [OF assms] by (simp add: match_template_def)
qed

text \<open>C4, at a concrete input: two results at the threshold 0.5, one at 0.8.\<close>

theorem match_template_count_antitone_witness:
  "np_le (Finite (1/2)) (Finite (4/5)) \<and>
   match_template (given_scores [[Finite (1/5), Finite (7/10)], [NaN, PosInf]])
       [[0::nat, 0], [0, 0]] [[0]] (Finite (1/2)) None False
     = Inr [MatchResult (Finite (7/10)) 1 0 1 1, MatchResult PosInf 1 1 1 1] \<and>
   match_template (given_scores [[Finite (1/5), Finite (7/10)], [NaN, PosInf]])
       [[0::nat, 0], [0, 0]] [[0]] (Finite (4/5)) None False
     = Inr [MatchResult PosInf 1 1 1 1]"
proof -
  have le: "np_le (Finite (1/2)) (Finite (4/5))" by (simp add: np_le_def)
  have run1: "match_template (given_scores [[Finite (1/5), Finite (7/10)], [NaN, PosInf]])
       [[0::nat, 0], [0, 0]] [[0]] (Finite (1/2)) None False
     = Inr [MatchResult (Finite (7/10)) 1 0 1 1, MatchResult PosInf 1 1 1 1]"
    by (simp add: run_defs float32_round_half)
  have run2: "match_template (given_scores [[Finite (1/5), Finite (7/10)], [NaN, PosInf]])
       [[0::nat, 0], [0, 0]] [[0]] (Finite (4/5)) None False
     = Inr [MatchResult PosInf 1 1 1 1]"
    by (simp add: run_defs float32_round_four_fifths)
  show ?thesis
    using match_template_count_antitone [OF le, of "given_scores [[Finite (1/5), Finite (7/10)], [NaN, PosInf]]"
        "[[0::nat, 0], [0, 0]]" "[[0]]" None False] le run1 run2
    by simp
qed


section \<open>Properties of find_max_circle\<close>

lemma keep_largest_cases:
  "(keep_largest cs t = t \<and> (\<forall>c\<in>set cs. radius c \<le> radius t)) \<or>
   (\<exists>i<length cs. keep_largest cs t = cs ! i \<and> radius t < radius (cs ! i)
       \<and> (\<forall>j<length cs. radius (cs ! j) \<le> radius (cs ! i))
       \<and> (\<forall>j<i. radius (cs ! j) < radius (cs ! i)))"
proof (induction cs arbitrary: t)
  case Nil
  then show ?case by simp
next
  case (Cons c cs)
  show ?case
  proof (cases "radius c > radius t")
    case True
    from Cons.IH [of c] show ?thesis
    proof
      assume a: "keep_largest cs c = c \<and> (\<forall>x\<in>set cs. radius x \<le> radius c)"
      have "0 < length (c # cs) \<and> keep_largest (c # cs) t = (c # cs) ! 0 \<and> radius t < radius ((c # cs) ! 0)
          \<and> (\<forall>j<length (c # cs). radius ((c # cs) ! j) \<le> radius ((c # cs) ! 0))
          \<and> (\<forall>j<0. radius ((c # cs) ! j) < radius ((c # cs) ! 0))"
        using a True by (auto simp: nth_Cons split: nat.splits)
      then show ?thesis by blast
    next
      assume "\<exists>i<length cs. keep_largest cs c = cs ! i \<and> radius c < radius (cs ! i)
         \<and> (\<forall>j<length cs. radius (cs ! j) \<le> radius (cs ! i))
         \<and> (\<forall>j<i. radius (cs ! j) < radius (cs ! i))"
      then obtain i where i: "i < length cs" "keep_largest cs c = cs ! i" "radius c < radius (cs ! i)"
         "\<forall>j<length cs. radius (cs ! j) \<le> radius (cs ! i)"
         "\<forall>j<i. radius (cs ! j) < radius (cs ! i)" by blast
      have "Suc i < length (c # cs) \<and> keep_largest (c # cs) t = (c # cs) ! Suc i
          \<and> radius t < radius ((c # cs) ! Suc i)
          \<and> (\<forall>j<length (c # cs). radius ((c # cs) ! j) \<le> radius ((c # cs) ! Suc i))
          \<and> (\<forall>j<Suc i. radius ((c # cs) ! j) < radius ((c # cs) ! Suc i))"
        using i True by (auto simp: nth_Cons split: nat.splits)
      then show ?thesis by blast
    qed
  next
    case False
    from Cons.IH [of t] show ?thesis
    proof
      assume a: "keep_largest cs t = t \<and> (\<forall>x\<in>set cs. radius x \<le> radius t)"
      then show ?thesis using False by auto
    next
      assume "\<exists>i<length cs. keep_largest cs t = cs ! i \<and> radius t < radius (cs ! i)
         \<and> (\<forall>j<length cs. radius (cs ! j) \<le> radius (cs ! i))
         \<and> (\<forall>j<i. radius (cs ! j) < radius (cs ! i))"
      then obtain i where i: "i < length cs" "keep_largest cs t = cs ! i" "radius t < radius (cs ! i)"
         "\<forall>j<length cs. radius (cs ! j) \<le> radius (cs ! i)"
         "\<forall>j<i. radius (cs ! j) < radius (cs ! i)" by blast
      have "Suc i < length (c # cs) \<and> keep_largest (c # cs) t = (c # cs) ! Suc i
          \<and> radius t < radius ((c # cs) ! Suc i)
          \<and> (\<forall>j<length (c # cs). radius ((c # cs) ! j) \<le> radius ((c # cs) ! Suc i))
          \<and> (\<forall>j<Suc i. radius ((c # cs) ! j) < radius ((c # cs) ! Suc i))"
        using i False by (auto simp: nth_Cons split: nat.splits)
      then show ?thesis by blast
    qed
  qed
qed

lemma np_around_bounds:
  assumes "160 \<le> v" and "v \<le> 200"
  shows "160 \<le> np_around v \<and> np_around v \<le> 200"
proof
  have "160 \<le> \<lfloor>v\<rfloor>" using assms(1) by (simp add: le_floor_iff)
  then show "160 \<le> np_around v" using np_around_floor [of v] by linarith
next
  show "np_around v \<le> 200"
  proof (cases "v = 200")
    case True
    then show ?thesis by (simp add: np_around_def)
  next
    case False
    with assms(2) have "v < 200" by simp
    then have "\<lfloor>v\<rfloor> < 200" by (simp add: floor_less_iff)
    then show ?thesis using np_around_floor [of v] by linarith
  qed
qed

lemma np_uint16_pos:
  assumes "160 \<le> v" and "v \<le> 200"
  shows "0 < np_uint16 v"
proof -
  have "uint (np_uint16 v) = np_around v"
    using np_around_bounds [OF assms] by (simp add: np_uint16_def uint_word_of_int)
  then have "0 < uint (np_uint16 v)" using np_around_bounds [OF assms] by simp
  then show ?thesis by (simp add: word_less_def)
qed

lemma HoughCircles_Some:
  "HoughCircles found lo hi = Some circles \<longleftrightarrow>
     circles = filter (\<lambda>(cx, cy, cr). lo \<le> cr \<and> cr \<le> hi) found \<and> circles \<noteq> []"
  by (auto simp: HoughCircles_def Let_def)

text \<open>
  C5, as stated, fails: for two circles of radius 10 and 20 the answer is \<open>(0, 0, 0)\<close>,
  not the circle of radius 20. The detector is run with \<open>minRadius=160\<close> and
  \<open>maxRadius=200\<close>, so neither circle is reported.
\<close>

theorem find_max_circle_small_circles_counterexample:
  "find_max_circle [(50, 50, 10), (60, 50, 20)] = (0, 0, 0)
   \<and> find_max_circle [(50, 50, 10), (60, 50, 20)] \<noteq> uint16_circle (60, 50, 20)"
  by code_simp

text \<open>
  C5, amended. When circle detection, with the radius bounded to 160 .. 200 as the code
  configures it, yields one circle or more, \<open>find_max_circle\<close> returns one of them, rounded
  to integers: the first whose rounded radius is the largest. Two circles of radius 10 and
  20 are outside the configured radius range: they are not detected, and \<open>(0, 0, 0)\<close> is
  returned.
\<close>

theorem find_max_circle_largest:
  "(\<forall>circles. HoughCircles found 160 200 = Some circles \<longrightarrow>
      (\<exists>i<length circles. find_max_circle found = uint16_circle (circles ! i)
         \<and> (\<forall>j<length circles. radius (uint16_circle (circles ! j)) \<le> radius (uint16_circle (circles ! i)))
         \<and> (\<forall>j<i. radius (uint16_circle (circles ! j)) < radius (uint16_circle (circles ! i)))))
   \<and> HoughCircles [(x1, y1, 10), (x2, y2, 20)] 160 200 = None
   \<and> find_max_circle [(x1, y1, 10), (x2, y2, 20)] = (0, 0, 0)"
proof (intro conjI allI impI)
  fix circles
  assume h: "HoughCircles found 160 200 = Some circles"
  then have ne: "circles \<noteq> []" and rng: "\<forall>c\<in>set circles. 160 \<le> snd (snd c) \<and> snd (snd c) \<le> 200"
    by (auto simp: HoughCircles_Some)
  let ?cs = "map uint16_circle circles"
  have pos: "\<forall>c\<in>set ?cs. 0 < radius c"
    using rng by (auto simp: uint16_circle_def radius_def np_uint16_pos split: prod.splits)
  have fm: "find_max_circle found = keep_largest ?cs (0, 0, 0)"
    using h by (simp add: find_max_circle_def)
  from keep_largest_cases [of ?cs "(0, 0, 0)"]
  show "\<exists>i<length circles. find_max_circle found = uint16_circle (circles ! i)
         \<and> (\<forall>j<length circles. radius (uint16_circle (circles ! j)) \<le> radius (uint16_circle (circles ! i)))
         \<and> (\<forall>j<i. radius (uint16_circle (circles ! j)) < radius (uint16_circle (circles ! i)))"
  proof
    assume "keep_largest ?cs (0, 0, 0) = (0, 0, 0) \<and> (\<forall>c\<in>set ?cs. radius c \<le> radius (0, 0, 0))"
    then have "\<forall>c\<in>set ?cs. radius c \<le> 0" by (simp add: radius_def)
    with pos ne show ?thesis by (cases circles) auto
  next
    assume "\<exists>i<length ?cs. keep_largest ?cs (0, 0, 0) = ?cs ! i \<and> radius (0, 0, 0) < radius (?cs ! i)
       \<and> (\<forall>j<length ?cs. radius (?cs ! j) \<le> radius (?cs ! i))
       \<and> (\<forall>j<i. radius (?cs ! j) < radius (?cs ! i))"
    then obtain i where i: "i < length circles" "keep_largest ?cs (0, 0, 0) = ?cs ! i"
       "\<forall>j<length ?cs. radius (?cs ! j) \<le> radius (?cs ! i)"
       "\<forall>j<i. radius (?cs ! j) < radius (?cs ! i)" by auto
    show ?thesis
    proof (intro exI [of _ i] conjI allI impI)
      show "i < length circles" by (rule i(1))
      show "find_max_circle found = uint16_circle (circles ! i)" using fm i(1,2) by simp
      show "radius (uint16_circle (circles ! j)) \<le> radius (uint16_circle (circles ! i))"
        if "j < length circles" for j using i(1,3) that by simp
      show "radius (uint16_circle (circles ! j)) < radius (uint16_circle (circles ! i))"
        if "j < i" for j using i(1,4) that by simp
    qed
  qed
next
  show "HoughCircles [(x1, y1, 10), (x2, y2, 20)] 160 200 = None"
    by (simp add: HoughCircles_def)
  then show "find_max_circle [(x1, y1, 10), (x2, y2, 20)] = (0, 0, 0)"
    by (simp add: find_max_circle_def)
qed

text \<open>
  C5, amended, at a concrete input: three circles of radius 170.5, 171.5 and 172.2, which
  round to 170, 172 and 172. The second is returned.
\<close>

theorem find_max_circle_largest_witness:
  "HoughCircles [(50, 50, 341/2), (60, 50, 343/2), (3, 4, 861/5)] 160 200
     = Some [(50, 50, 341/2), (60, 50, 343/2), (3, 4, 861/5)]
   \<and> (\<exists>i<3. find_max_circle [(50, 50, 341/2), (60, 50, 343/2), (3, 4, 861/5)]
              = uint16_circle ([(50, 50, 341/2), (60, 50, 343/2), (3, 4, 861/5)] ! i))
   \<and> find_max_circle [(50, 50, 341/2), (60, 50, 343/2), (3, 4, 861/5)] = (60, 50, 172)"
proof -
  let ?found = "[(50, 50, 341/2), (60, 50, 343/2), (3, 4, 861/5)] :: circle list"
  have h: "HoughCircles ?found 160 200 = Some ?found" by code_simp
  have run: "find_max_circle ?found = (60, 50, 172)" by code_simp
  from find_max_circle_largest [of ?found 50 50 60 50] h
  have "\<exists>i<length ?found. find_max_circle ?found = uint16_circle (?found ! i)" by blast
  then have "\<exists>i<3. find_max_circle ?found = uint16_circle (?found ! i)"
    by (simp add: numeral_3_eq_3)
  with h run show ?thesis by blast
qed

text \<open>
  C6. When circle detection finds no circle, \<open>find_max_circle\<close> returns \<open>(0, 0, 0)\<close>; the
  function has no failing branch after the detection.
\<close>

theorem find_max_circle_no_circle:
  "HoughCircles found 160 200 = None \<Longrightarrow> find_max_circle found = (0, 0, 0)"
  by (simp add: find_max_circle_def)

text \<open>C6, at a concrete input: an image whose only circle has radius 50.\<close>

theorem find_max_circle_no_circle_witness:
  "HoughCircles [(100, 100, 50)] 160 200 = None \<and> find_max_circle [(100, 100, 50)] = (0, 0, 0)"
proof -
  have h: "HoughCircles [(100, 100, 50)] 160 200 = None" by code_simp
  from find_max_circle_no_circle [OF h] h show ?thesis by simp
qed


section \<open>Properties of concat_vertically\<close>

lemma length_py_slice_from:
  "0 \<le> k \<Longrightarrow> length (py_slice_from k xs) = length xs - nat k"
  by (simp add: py_slice_from_def)

text \<open>
  When the best match of the top 200 rows of \<open>next_img\<close> is at the last 200 rows of
  \<open>img\<close>, \<open>overlap_h\<close> is 200 and the rows of \<open>next_img\<close> from index 201 on are
  appended: one row fewer than the rows that are new.
\<close>

lemma concat_vertically_height:
  assumes m: "match_template matchTemplate img (py_slice_to 200 next_img) (Finite (1/2)) None False = Inr result"
      and b: "highest None result = Some r"
      and y: "mr_y r = int (shape0 img) - 200"
      and w: "\<forall>row\<in>set img \<union> set next_img. length row = wd"
    shows "\<exists>out. concat_vertically matchTemplate img next_img 200 = Inr out
             \<and> shape0 out = shape0 img + (shape0 next_img - 201)"
proof -
  let ?extra = "py_slice_from 201 next_img"
  have cv: "concat_vertically matchTemplate img next_img 200 = vconcat img ?extra"
    using m b y by (simp add: concat_vertically_def Let_def)
  have "img = [] \<or> ?extra = [] \<or> shape1 img = shape1 ?extra"
  proof (cases "img = [] \<or> ?extra = []")
    case True
    then show ?thesis by blast
  next
    case False
    then obtain r1 rs1 r2 rs2 where i: "img = r1 # rs1" and e: "?extra = r2 # rs2"
      by (meson list.exhaust)
    have "r2 \<in> set next_img" using e
      by (metis in_set_dropD list.set_intros(1) py_slice_from_def)
    with w i have "length r1 = length r2" by auto
    with i e show ?thesis by (simp add: shape1_def)
  qed
  then have "vconcat img ?extra = Inr (img @ ?extra)" by (auto simp: vconcat_def)
  with cv show ?thesis by (simp add: shape0_def length_py_slice_from)
qed

lemma numbered_rows_overlap:
  "shape0 (numbered_rows 0 201) = 201 \<and> shape0 (numbered_rows 1 202) = 201
   \<and> drop 1 (numbered_rows 0 201) = take 200 (numbered_rows 1 202)"
  by (simp add: shape0_def numbered_rows_def drop_map take_map)

text \<open>
  The run of the two captures, step by step: the score map of the top strip, the one
  result at the row 1, and the rows that are appended.
\<close>

lemma strip_scores:
  "cv2_matchTemplate exact_ncc (numbered_rows 0 201) (py_slice_to 200 (numbered_rows 1 202)) None
    = Inr [[Finite 0], [Finite 1]]"
  by code_simp

lemma strip_shape0: "shape0 (py_slice_to 200 (numbered_rows 1 202)) = 200"
  by (simp add: shape0_def py_slice_to_def numbered_rows_def)

lemma strip_shape1: "shape1 (py_slice_to 200 (numbered_rows 1 202)) = 1"
  by code_simp

lemma strip_collected:
  "collect_matches [[Finite 0], [Finite 1]] (Finite (1/2)) False 200 1
    = [MatchResult (Finite 1) 0 1 200 1]"
  by (simp add: collect_matches_def np_where_def row_hits_def keeps_def float32_round_half)

lemma strip_matches:
  "match_template (cv2_matchTemplate exact_ncc) (numbered_rows 0 201)
      (py_slice_to 200 (numbered_rows 1 202)) (Finite (1/2)) None False
    = Inr [MatchResult (Finite 1) 0 1 200 1]"
proof -
  have "match_template (cv2_matchTemplate exact_ncc) (numbered_rows 0 201)
      (py_slice_to 200 (numbered_rows 1 202)) (Finite (1/2)) None False
    = Inr (collect_matches [[Finite 0], [Finite 1]] (Finite (1/2)) False (int 200) (int 1))"
    by (simp only: match_template_def Let_def strip_scores strip_shape0 strip_shape1 sum.case)
  then show ?thesis by (simp only: strip_collected of_nat_numeral of_nat_1)
qed

lemma concat_vertically_run:
  "concat_vertically (cv2_matchTemplate exact_ncc) (numbered_rows 0 201) (numbered_rows 1 202) 200
     = Inr (numbered_rows 0 201)"
proof -
  have rest: "py_slice_from 201 (numbered_rows 1 202) = []"
    by (simp add: py_slice_from_def numbered_rows_def)
  have h: "int (shape0 (numbered_rows 0 201)) - 1 + 1 = 201"
    by (simp add: shape0_def numbered_rows_def)
  have "concat_vertically (cv2_matchTemplate exact_ncc) (numbered_rows 0 201) (numbered_rows 1 202) 200
     = vconcat (numbered_rows 0 201)
         (py_slice_from (int (shape0 (numbered_rows 0 201)) - 1 + 1) (numbered_rows 1 202))"
    by (simp only: concat_vertically_def Let_def strip_matches sum.case highest.simps option.case
        MatchResult.sel)
  also have "\<dots> = vconcat (numbered_rows 0 201) []" by (simp only: h rest)
  also have "\<dots> = Inr (numbered_rows 0 201)" by (simp add: vconcat_def)
  finally show ?thesis .
qed

text \<open>
  C7, as the code has it. The claim is a result of height \<open>h1 + h2 - 200\<close>. Two captures of
  201 rows each, the rows 0 to 200 and the rows 1 to 201 of one scene, overlap in exactly
  200 rows (the last 200 of the first are the first 200 of the second), and the overlap is
  the only exact match. The result is the first capture and nothing else, 201 rows where
  \<open>201 + 201 - 200 = 202\<close> are claimed: row 201 is lost, as \<open>next_img[overlap_h+1:]\<close>
  starts one row too late.
\<close>

theorem concat_vertically_drops_a_row:
  "concat_vertically (cv2_matchTemplate exact_ncc) (numbered_rows 0 201) (numbered_rows 1 202) 200
     = Inr (numbered_rows 0 201)
   \<and> shape0 (numbered_rows 0 201) = 201 \<and> shape0 (numbered_rows 1 202) = 201
   \<and> drop 1 (numbered_rows 0 201) = take 200 (numbered_rows 1 202)"
  using concat_vertically_run numbered_rows_overlap by simp


section \<open>Properties of the world graph constants\<close>

lemmas region_defs = R0_GJCX_def P01_R01_ZKCD_def P01_R02_JZCD_def P01_R03_SRCD_B1_def P01_R03_SRCD_L1_def P01_R03_SRCD_L2_def P01_R04_ZYCD_L1_def P01_R04_ZYCD_L2_def P02_R01_L1_def P02_R01_B1_def P02_R02_def P02_R03_def P02_R04_def P02_R05_def P02_R06_def P02_R07_def P02_R08_L2_def P02_R09_def P02_R10_def P02_R11_L1_def P02_R11_L2_def
  P01_KZJ_def P02_YYL_def P03_XZLF_def

lemma digits_Suc_0: "digits (Suc 0) = ''1''"
  by (subst digits.simps) simp

lemma digits_2: "digits 2 = ''2''"
  by (subst digits.simps) simp

lemma regions_checked:
  "list_all (\<lambda>r. r = R0_GJCX \<or>
      list_ex (\<lambda>p. planet r = Some p
          \<and> identity_key r = Inr (planet_id p, region_id r, level r)
          \<and> get_pr_id r = Inr (planet_id p @ ''-'' @ region_id r)
          \<and> get_prl_id r = Inr (planet_id p @ ''-'' @ get_rl_id r)) PLANET_LIST) region_constants"
  by (simp add: region_constants_def PLANET_LIST_def region_defs identity_key_def get_pr_id_def
      get_prl_id_def get_rl_id_def)

text \<open>
  C8, as stated, fails: the region constant \<open>R0_GJCX\<close> is built with \<open>None\<close> as its planet,
  so it has no identity key and \<open>get_pr_id\<close> and \<open>get_prl_id\<close> raise on it.
\<close>

theorem region_without_planet_counterexample:
  "R0_GJCX \<in> set region_constants \<and> planet R0_GJCX = None
   \<and> identity_key R0_GJCX = Inl AttributeError
   \<and> get_pr_id R0_GJCX = Inl AttributeError \<and> get_prl_id R0_GJCX = Inl AttributeError"
  by (simp add: region_constants_def R0_GJCX_def identity_key_def get_pr_id_def get_prl_id_def)

text \<open>
  C8, amended. Every region constant other than \<open>R0_GJCX\<close> belongs to one planet of
  \<open>PLANET_LIST\<close>, so that its identity key (planet id, region id, level) and the folder
  ids \<open>get_pr_id\<close> and \<open>get_prl_id\<close> are defined: the planet id, a dash, and the region id,
  respectively the region id with its level.
\<close>

theorem regions_have_planet_except_R0:
  "\<forall>r\<in>set region_constants. r \<noteq> R0_GJCX \<longrightarrow>
     (\<exists>p\<in>set PLANET_LIST. planet r = Some p
          \<and> identity_key r = Inr (planet_id p, region_id r, level r)
          \<and> get_pr_id r = Inr (planet_id p @ ''-'' @ region_id r)
          \<and> get_prl_id r = Inr (planet_id p @ ''-'' @ get_rl_id r))"
  using regions_checked unfolding list_all_iff list_ex_iff by blast

text \<open>C8, amended, at the region \<open>P01_R03_SRCD_B1\<close>, a basement floor.\<close>

theorem regions_have_planet_except_R0_witness:
  "P01_R03_SRCD_B1 \<in> set region_constants \<and> P01_R03_SRCD_B1 \<noteq> R0_GJCX
   \<and> P01_KZJ \<in> set PLANET_LIST \<and> planet P01_R03_SRCD_B1 = Some P01_KZJ
   \<and> identity_key P01_R03_SRCD_B1 = Inr (''kjzht'', ''srcd'', -1)
   \<and> get_pr_id P01_R03_SRCD_B1 = Inr ''kjzht-srcd''
   \<and> get_prl_id P01_R03_SRCD_B1 = Inr ''kjzht-srcd-b1''"
proof -
  have a: "P01_R03_SRCD_B1 \<in> set region_constants" by (simp add: region_constants_def)
  have b: "P01_R03_SRCD_B1 \<noteq> R0_GJCX" by (simp add: region_defs)
  have c: "P01_KZJ \<in> set PLANET_LIST" by (simp add: PLANET_LIST_def)
  have d: "planet P01_R03_SRCD_B1 = Some P01_KZJ" by (simp add: region_defs)
  have e: "identity_key P01_R03_SRCD_B1 = Inr (''kjzht'', ''srcd'', -1)"
    by (simp add: identity_key_def region_defs)
  have f: "get_pr_id P01_R03_SRCD_B1 = Inr ''kjzht-srcd''"
    by (simp add: get_pr_id_def region_defs)
  have g: "get_prl_id P01_R03_SRCD_B1 = Inr ''kjzht-srcd-b1''"
    by (simp add: get_prl_id_def region_defs digits_Suc_0)
  from regions_have_planet_except_R0 a b
  have "\<exists>p\<in>set PLANET_LIST. planet P01_R03_SRCD_B1 = Some p" by blast
  with a b c d e f g show ?thesis by simp
qed


section \<open>Properties of ScaleLargeMap\<close>

lemma get_click_pos_cached:
  "get_click_pos ctx (self\<lparr>pos := cached\<rparr>) w = get_click_pos ctx self w"
  by (simp add: get_click_pos_def)

text \<open>
  C9. After \<open>on_resume\<close>, whatever click target was cached before the pause, \<open>pos\<close> is the
  result of \<open>get_click_pos\<close>, and that result is computed from the screenshot captured at
  the time of the resume.
\<close>

theorem on_resume_rederives_pos:
  "pos (fst (on_resume ctx (self\<lparr>pos := cached\<rparr>) w)) = fst (get_click_pos ctx self w)
   \<and> fst (get_click_pos ctx self w) =
       (case mrl_max (im_match_template ctx (crop_image ctx (fst (screenshot ctx w)) rect)
                        (if scale self > 0 then ''plus'' else ''minus'')) of
          None \<Rightarrow> None
        | Some m \<Rightarrow> Some (MatchResult (confidence m) (mr_x m + 600) (mr_y m + 960) (mr_w m) (mr_h m)))"
  by (simp add: on_resume_def get_click_pos_def Let_def left_top_def rect_def
      split: prod.splits option.splits)

text \<open>A run: the target cached from frame 2 is replaced by the one found in frame 5.\<close>

lemma on_resume_example:
  "pos (fst (on_resume frame_context
          ((ScaleLargeMap_init () 2)\<lparr>pos := Some (MatchResult (Finite (9/10)) 602 967 30 30)\<rparr>) 5))
     = Some (MatchResult (Finite (9/10)) 605 967 30 30)"
  by (simp add: on_resume_def get_click_pos_def frame_context_def ScaleLargeMap_init_def
      mrl_max_def left_top_def rect_def)

lemma execute_one_round_found:
  assumes "pos self = Some p"
  shows "\<exists>w'. execute_one_round ctx self w =
           (if click_times self + 1 = \<bar>scale self\<bar> then SUCCESS else WAIT,
            self\<lparr>click_times := click_times self + 1\<rparr>, w')"
  using assms by (simp add: execute_one_round_def Let_def split: prod.splits)

lemma run_rounds_found:
  assumes "pos self = Some p"
  shows "length (fst (run_rounds ctx n self w)) = n \<and>
         (\<forall>k<n. fst (run_rounds ctx n self w) ! k =
            (if click_times self + int (Suc k) = \<bar>scale self\<bar> then SUCCESS else WAIT))"
  using assms
proof (induction n arbitrary: self w)
  case 0
  then show ?case by simp
next
  case (Suc n)
  from execute_one_round_found [OF Suc.prems, of ctx w] obtain w1 where
    e: "execute_one_round ctx self w =
           (if click_times self + 1 = \<bar>scale self\<bar> then SUCCESS else WAIT,
            self\<lparr>click_times := click_times self + 1\<rparr>, w1)" by blast
  let ?s1 = "self\<lparr>click_times := click_times self + 1\<rparr>"
  have p1: "pos ?s1 = Some p" using Suc.prems by simp
  note ih = Suc.IH [OF p1, of w1]
  obtain rs s2 w2 where r: "run_rounds ctx n ?s1 w1 = (rs, s2, w2)"
    by (cases "run_rounds ctx n ?s1 w1") auto
  have rr: "fst (run_rounds ctx (Suc n) self w) =
      (if click_times self + 1 = \<bar>scale self\<bar> then SUCCESS else WAIT) # rs"
    using e r by simp
  from ih r have len: "length rs = n"
    and nth: "\<forall>k<n. rs ! k = (if click_times self + 1 + int (Suc k) = \<bar>scale self\<bar> then SUCCESS else WAIT)"
    by simp_all
  show ?case
  proof (intro conjI allI impI)
    show "length (fst (run_rounds ctx (Suc n) self w)) = Suc n" using rr len by simp
    fix k assume "k < Suc n"
    then show "fst (run_rounds ctx (Suc n) self w) ! k =
            (if click_times self + int (Suc k) = \<bar>scale self\<bar> then SUCCESS else WAIT)"
      using rr nth by (cases k) (auto simp: algebra_simps)
  qed
qed

lemma first_round_finds:
  assumes "fst (get_click_pos ctx (ScaleLargeMap_init b s) w) = Some p"
  shows "\<exists>w'. execute_one_round ctx (ScaleLargeMap_init b s) w =
           (if 1 = \<bar>s\<bar> then SUCCESS else WAIT,
            \<lparr>base = b, scale = s, click_times = 1, pos = Some p\<rparr>, w')"
  using assms
  by (auto simp: execute_one_round_def ScaleLargeMap_init_def Let_def split: prod.splits)

text \<open>
  C10. Take a \<open>ScaleLargeMap\<close> built with the scale \<open>s\<close> whose click position is found
  (once found it is kept, so it is there in every round). Round \<open>k + 1\<close> makes the click
  count \<open>k + 1\<close>; it returns SUCCESS when that count is \<open>|s|\<close> and WAIT otherwise. So for
  \<open>s \<noteq> 0\<close> the first \<open>|s| - 1\<close> rounds return WAIT and round \<open>|s|\<close> returns SUCCESS,
  and for \<open>s = 0\<close> no round returns SUCCESS.
\<close>

theorem scale_large_map_rounds:
  assumes "fst (get_click_pos ctx (ScaleLargeMap_init b s) w) \<noteq> None"
  shows "length (fst (run_rounds ctx n (ScaleLargeMap_init b s) w)) = n
       \<and> (\<forall>k<n. fst (run_rounds ctx n (ScaleLargeMap_init b s) w) ! k =
             (if int (Suc k) = \<bar>s\<bar> then SUCCESS else WAIT))
       \<and> (s = 0 \<longrightarrow> SUCCESS \<notin> set (fst (run_rounds ctx n (ScaleLargeMap_init b s) w)))"
proof -
  let ?out = "fst (run_rounds ctx n (ScaleLargeMap_init b s) w)"
  have main: "length ?out = n \<and> (\<forall>k<n. ?out ! k = (if int (Suc k) = \<bar>s\<bar> then SUCCESS else WAIT))"
  proof (cases n)
    case 0
    then show ?thesis by simp
  next
    case (Suc m)
    from assms obtain p where p: "fst (get_click_pos ctx (ScaleLargeMap_init b s) w) = Some p" by auto
    from first_round_finds [OF p] obtain w1 where
      e: "execute_one_round ctx (ScaleLargeMap_init b s) w =
           (if 1 = \<bar>s\<bar> then SUCCESS else WAIT,
            \<lparr>base = b, scale = s, click_times = 1, pos = Some p\<rparr>, w1)" by blast
    let ?s1 = "\<lparr>base = b, scale = s, click_times = 1, pos = Some p\<rparr>"
    have "pos ?s1 = Some p" by simp
    note rf = run_rounds_found [OF this, of ctx m w1]
    obtain rs s2 w2 where r: "run_rounds ctx m ?s1 w1 = (rs, s2, w2)"
      by (cases "run_rounds ctx m ?s1 w1") auto
    have rr: "?out = (if 1 = \<bar>s\<bar> then SUCCESS else WAIT) # rs"
      using e r Suc by simp
    from rf r have len: "length rs = m"
      and nth: "\<forall>k<m. rs ! k = (if 1 + int (Suc k) = \<bar>s\<bar> then SUCCESS else WAIT)"
      by simp_all
    show ?thesis
    proof (intro conjI allI impI)
      show "length ?out = n" using rr len Suc by simp
      fix k assume "k < n"
      then show "?out ! k = (if int (Suc k) = \<bar>s\<bar> then SUCCESS else WAIT)"
        using rr nth Suc by (cases k) (auto simp: algebra_simps)
    qed
  qed
  have "SUCCESS \<notin> set ?out" if "s = 0"
  proof
    assume "SUCCESS \<in> set ?out"
    then obtain k where "k < length ?out" "?out ! k = SUCCESS" by (auto simp: in_set_conv_nth)
    with main that show False by auto
  qed
  with main show ?thesis by blast
qed

text \<open>
  C10, at concrete inputs: four rounds with the scale 2 return WAIT, SUCCESS, WAIT, WAIT;
  four rounds with the scale 0 return WAIT each.
\<close>

theorem scale_large_map_rounds_witness:
  "fst (get_click_pos frame_context (ScaleLargeMap_init () 2) 0)
     = Some (MatchResult (Finite (9/10)) 600 967 30 30)
   \<and> fst (run_rounds frame_context 4 (ScaleLargeMap_init () 2) 0) = [WAIT, SUCCESS, WAIT, WAIT]
   \<and> fst (get_click_pos frame_context (ScaleLargeMap_init () 0) 0)
     = Some (MatchResult (Finite (9/10)) 600 967 30 30)
   \<and> fst (run_rounds frame_context 4 (ScaleLargeMap_init () 0) 0) = [WAIT, WAIT, WAIT, WAIT]
   \<and> SUCCESS \<notin> set (fst (run_rounds frame_context 4 (ScaleLargeMap_init () 0) 0))"
proof -
  have f2: "fst (get_click_pos frame_context (ScaleLargeMap_init () 2) 0)
     = Some (MatchResult (Finite (9/10)) 600 967 30 30)" by code_simp
  have f0: "fst (get_click_pos frame_context (ScaleLargeMap_init () 0) 0)
     = Some (MatchResult (Finite (9/10)) 600 967 30 30)" by code_simp
  have r2: "fst (run_rounds frame_context 4 (ScaleLargeMap_init () 2) 0) = [WAIT, SUCCESS, WAIT, WAIT]"
    by code_simp
  have r0: "fst (run_rounds frame_context 4 (ScaleLargeMap_init () 0) 0) = [WAIT, WAIT, WAIT, WAIT]"
    by code_simp
  have "fst (get_click_pos frame_context (ScaleLargeMap_init () 0) 0) \<noteq> None" using f0 by simp
  from scale_large_map_rounds [OF this, of 4]
  have "SUCCESS \<notin> set (fst (run_rounds frame_context 4 (ScaleLargeMap_init () 0) 0))" by blast
  with f2 f0 r2 r0 show ?thesis by simp
qed

end
